theory Spec2Isabelle
  imports Complex_Main
begin

section \<open>The rate-limiting AI proxy (\<^verbatim>\<open>.netlify/functions/ai-proxy.js\<close>)\<close>

text \<open>
  The handler keeps two pieces of module-level state, \<^verbatim>\<open>requestCounts\<close> (the ledger) and
  \<^verbatim>\<open>usageStats\<close>. Every function below takes the state it reads and returns the state it
  leaves behind. \<^verbatim>\<open>Date.now()\<close> is an input: each function that reads the clock takes the
  reading as an argument. Timestamps are integers (milliseconds). Counters are natural
  numbers (the source's doubles count exactly far beyond any reachable value).
  Console logging is not modelled: it writes no state.
\<close>

subsection \<open>Configuration\<close>

datatype period = Minute | Hour | Day

record config =
  max_limit :: nat
  window :: int

text \<open>\<^verbatim>\<open>RATE_LIMITS\<close>, in the insertion order that \<^verbatim>\<open>Object.entries\<close> follows.
  The field \<^verbatim>\<open>max\<close> is named \<open>max_limit\<close> here.\<close>

definition RATE_LIMITS :: "(period \<times> config) list" where
  "RATE_LIMITS =
     [(Minute, \<lparr>max_limit = 10, window = 60 * 1000\<rparr>),
      (Hour, \<lparr>max_limit = 50, window = 60 * 60 * 1000\<rparr>),
      (Day, \<lparr>max_limit = 200, window = 24 * 60 * 60 * 1000\<rparr>)]"

subsection \<open>State\<close>

text \<open>
  \<^verbatim>\<open>requestCounts[ip][period]\<close> is an array of timestamps. An absent key is \<open>None\<close>.
  Identities are ordinary keys: a key that names an inherited property of a JavaScript
  object (such as \<^verbatim>\<open>__proto__\<close>) is outside the model.
\<close>

type_synonym entry = "period \<rightharpoonup> int list"
type_synonym ledger = "string \<rightharpoonup> entry"

record usage =
  totalRequests :: nat
  uniqueIPs :: "string set"
  startTime :: int
  errors :: nat
  rateLimitHits :: nat

record state =
  requestCounts :: ledger
  usageStats :: usage

subsection \<open>cleanupOldEntries\<close>

text \<open>\<^verbatim>\<open>Math.max(...Object.values(RATE_LIMITS).map(r => r.window))\<close>; every window is
  positive, so folding from 0 gives the same maximum.\<close>

definition maxWindow :: int where
  "maxWindow = fold max (map (\<lambda>r. window (snd r)) RATE_LIMITS) 0"

text \<open>The loop visits every identity once; what it does to one identity does not depend on
  the others, so the model is pointwise. Every period's array is filtered with the one
  \<open>maxWindow\<close>; an identity whose arrays are then all empty is deleted.\<close>

definition sweep_entry :: "int \<Rightarrow> entry \<Rightarrow> entry" where
  "sweep_entry now e =
     (\<lambda>p. case e p of None \<Rightarrow> None
          | Some arr \<Rightarrow> Some (filter (\<lambda>timestamp. now - timestamp < maxWindow) arr))"

definition all_empty :: "entry \<Rightarrow> bool" where
  "all_empty e = list_all (\<lambda>p. case e p of None \<Rightarrow> True | Some arr \<Rightarrow> length arr = 0)
                   [Minute, Hour, Day]"

definition cleanupOldEntries :: "ledger \<Rightarrow> int \<Rightarrow> ledger" where
  "cleanupOldEntries rc now =
     (\<lambda>ip. case rc ip of None \<Rightarrow> None
           | Some e \<Rightarrow> (let e' = sweep_entry now e in if all_empty e' then None else Some e'))"

subsection \<open>checkRateLimit\<close>

datatype rl_result = Allowed | Denied period nat

text \<open>The first loop: for each tier in order, create the array if absent, filter it with
  the tier's own window, and return at the first tier whose filtered array has reached
  the tier's maximum.\<close>

fun check_loop :: "int \<Rightarrow> (period \<times> config) list \<Rightarrow> entry \<Rightarrow> (period \<times> nat) option \<times> entry" where
  "check_loop now [] e = (None, e)"
| "check_loop now ((p, c) # rest) e =
     (let arr = (case e p of None \<Rightarrow> [] | Some a \<Rightarrow> a);
          arr' = filter (\<lambda>timestamp. now - timestamp < window c) arr;
          e' = e(p \<mapsto> arr')
      in if length arr' \<ge> max_limit c then (Some (p, max_limit c), e')
         else check_loop now rest e')"

text \<open>The second loop: push \<open>now\<close> onto every tier's array. The first loop has created
  every array by then (lemma \<open>check_loop_defined\<close>), so the \<open>None\<close> branch, where the
  source would throw, is never taken.\<close>

fun record_all :: "int \<Rightarrow> period list \<Rightarrow> entry \<Rightarrow> entry" where
  "record_all now [] e = e"
| "record_all now (p # ps) e =
     record_all now ps (case e p of None \<Rightarrow> e | Some arr \<Rightarrow> e(p \<mapsto> arr @ [now]))"

definition checkRateLimit :: "ledger \<Rightarrow> string \<Rightarrow> int \<Rightarrow> rl_result \<times> ledger" where
  "checkRateLimit rc ip now =
     (let e = (case rc ip of None \<Rightarrow> Map.empty | Some e \<Rightarrow> e)
      in case check_loop now RATE_LIMITS e of
           (Some (p, limit), e') \<Rightarrow> (Denied p limit, rc(ip \<mapsto> e'))
         | (None, e') \<Rightarrow> (Allowed, rc(ip \<mapsto> record_all now (map fst RATE_LIMITS) e')))"

subsection \<open>logUsage and getUsageStats\<close>

datatype json = JNull | JBool bool | JNum real | JStr string
  | JArr "json list" | JObj "(string \<times> json) list"

text \<open>A JavaScript value that may be \<^verbatim>\<open>undefined\<close> is a \<open>json option\<close>.
  \<open>userAgent\<close> and \<open>prompt\<close> only reach the console.\<close>

definition logUsage :: "usage \<Rightarrow> string \<Rightarrow> string \<Rightarrow> json option \<Rightarrow> bool \<Rightarrow> usage" where
  "logUsage us ip userAgent prompt success =
     (let us1 = us\<lparr>totalRequests := totalRequests us + 1\<rparr>;
          us2 = us1\<lparr>uniqueIPs := insert ip (uniqueIPs us1)\<rparr>
      in if \<not> success then us2\<lparr>errors := errors us2 + 1\<rparr> else us2)"

text \<open>A double is a real number, or one of the three values a division by zero produces.
  Rounding error is not modelled.\<close>

datatype jsnum = Fin real | PosInfinity | NegInfinity | NaN

definition js_div :: "real \<Rightarrow> real \<Rightarrow> jsnum" where
  "js_div x y =
     (if y \<noteq> 0 then Fin (x / y)
      else if x > 0 then PosInfinity else if x < 0 then NegInfinity else NaN)"

text \<open>\<^verbatim>\<open>Math.round\<close> rounds half up.\<close>

definition Math_round :: "real \<Rightarrow> real" where
  "Math_round x = of_int \<lfloor>x + 1 / 2\<rfloor>"

text \<open>\<^verbatim>\<open>Math.round(q * 10) / 10\<close> on a double \<open>q\<close>: infinities and NaN pass through.\<close>

fun round1 :: "jsnum \<Rightarrow> jsnum" where
  "round1 (Fin q) = Fin (Math_round (q * 10) / 10)"
| "round1 q = q"

record stats =
  stat_totalRequests :: nat
  stat_uniqueIPs :: nat
  stat_errors :: nat
  stat_rateLimitHits :: nat
  uptimeHours :: real
  requestsPerHour :: jsnum
  activeIPs :: nat

definition getUsageStats :: "state \<Rightarrow> int \<Rightarrow> stats" where
  "getUsageStats s now =
     (let us = usageStats s;
          uptime = real_of_int (now - startTime us) / (1000 * 60 * 60)
      in \<lparr>stat_totalRequests = totalRequests us,
          stat_uniqueIPs = card (uniqueIPs us),
          stat_errors = errors us,
          stat_rateLimitHits = rateLimitHits us,
          uptimeHours = Math_round (uptime * 10) / 10,
          requestsPerHour = round1 (js_div (real (totalRequests us)) uptime),
          activeIPs = card (dom (requestCounts s))\<rparr>)"

subsection \<open>The handler\<close>

text \<open>The request. Strings stand for JavaScript strings, one element for one code unit.
  The platform always supplies the method, the path and the header table; a missing
  header or body is \<open>None\<close>.\<close>

record event =
  httpMethod :: string
  path :: string
  headers :: "string \<rightharpoonup> string"
  body :: "string option"

text \<open>What one invocation reads from outside: the clock (once in the sweep, once in the
  rate-limit check, once for the statistics), the API key, the result of
  \<^verbatim>\<open>JSON.parse\<close> (\<open>None\<close> when it throws) and the downstream answer for a payload
  (\<open>None\<close> when \<^verbatim>\<open>fetch\<close> or \<^verbatim>\<open>response.json()\<close> rejects).\<close>

record world =
  now_sweep :: int
  now_check :: int
  now_stats :: int
  HUGGINGFACE_API_KEY :: "string option"
  JSON_parse :: "string \<Rightarrow> json option"
  fetch_json :: "json \<Rightarrow> json option"

text \<open>The response's headers are the same constant in every branch and are left out. The
  body is the value given to \<^verbatim>\<open>JSON.stringify\<close>; the 429 message is kept as the three
  values it interpolates.\<close>

datatype body = Empty | ErrorMsg string | RateLimited nat period real
  | StatsBody stats | DataBody json

record response =
  statusCode :: nat
  resp_body :: body

text \<open>\<^verbatim>\<open>a || d\<close> on strings: \<^verbatim>\<open>undefined\<close> and the empty string are falsy.\<close>

definition or_default :: "string option \<Rightarrow> string \<Rightarrow> string" where
  "or_default a d = (case a of None \<Rightarrow> d | Some s \<Rightarrow> if s = [] then d else s)"

fun truthy :: "json option \<Rightarrow> bool" where
  "truthy None = False"
| "truthy (Some JNull) = False"
| "truthy (Some (JBool b)) = b"
| "truthy (Some (JNum n)) = (n \<noteq> 0)"
| "truthy (Some (JStr s)) = (s \<noteq> [])"
| "truthy (Some (JArr xs)) = True"
| "truthy (Some (JObj fs)) = True"

text \<open>Reading a named property of a value that is neither null nor undefined: only an
  object has the properties the handler asks for. (On null the read throws; the two
  places where that can happen are handled where they occur.)\<close>

fun get_prop :: "json \<Rightarrow> string \<Rightarrow> json option" where
  "get_prop (JObj fs) k = map_of fs k"
| "get_prop v k = None"

fun is_string :: "json option \<Rightarrow> bool" where
  "is_string (Some (JStr s)) = True"
| "is_string v = False"

fun str_length :: "json option \<Rightarrow> nat" where
  "str_length (Some (JStr s)) = length s"
| "str_length v = 0"

fun isArray :: "json option \<Rightarrow> bool" where
  "isArray (Some (JArr xs)) = True"
| "isArray v = False"

fun arr_length :: "json option \<Rightarrow> nat" where
  "arr_length (Some (JArr xs)) = length xs"
| "arr_length v = 0"

fun str_includes :: "string \<Rightarrow> string \<Rightarrow> bool" where
  "str_includes [] s = (s = [])"
| "str_includes (c # cs) s = (take (length s) (c # cs) = s \<or> str_includes cs s)"

definition or_empty_array :: "json option \<Rightarrow> json" where
  "or_empty_array v = (case v of None \<Rightarrow> JArr [] | Some x \<Rightarrow> if truthy v then x else JArr [])"

definition hfPayload :: "json \<Rightarrow> json option \<Rightarrow> json" where
  "hfPayload prompt conversation =
     (case conversation of
        None \<Rightarrow> JObj [(''inputs'', prompt)]
      | Some c \<Rightarrow>
          if truthy conversation
          then JObj [(''inputs'', JObj
                 [(''past_user_inputs'', or_empty_array (get_prop c ''past_user_inputs'')),
                  (''generated_responses'', or_empty_array (get_prop c ''generated_responses'')),
                  (''text'', prompt)])]
          else JObj [(''inputs'', prompt)])"

definition conversation_invalid :: "json option \<Rightarrow> bool" where
  "conversation_invalid conversation =
     (case conversation of
        None \<Rightarrow> False
      | Some c \<Rightarrow>
          truthy conversation \<and>
          (\<not> isArray (get_prop c ''past_user_inputs'') \<or>
           \<not> isArray (get_prop c ''generated_responses'') \<or>
           arr_length (get_prop c ''past_user_inputs'') > 10 \<or>
           arr_length (get_prop c ''generated_responses'') > 10))"

text \<open>The \<^verbatim>\<open>try\<close> block, in two parts. The first part runs up to the downstream call:
  it parses the body, validates it and checks the API key. It ends in \<open>Inl\<close> when the
  block returns or throws there (the response, \<open>None\<close> for a throw, with \<open>usageStats\<close> as
  it stands), and in \<open>Inr\<close> with the prompt and the payload when the downstream call is
  reached. Destructuring a parsed \<^verbatim>\<open>null\<close> throws. Past the validation the prompt is a
  string, so the last \<open>None\<close> branch is never taken.\<close>

definition before_fetch ::
  "world \<Rightarrow> event \<Rightarrow> string \<Rightarrow> string \<Rightarrow> usage \<Rightarrow> (response option \<times> usage) + (json option \<times> json)" where
  "before_fetch w ev ip userAgent us =
     (case JSON_parse w (or_default (body ev) ''{}'') of
        None \<Rightarrow> Inl (None, us)
      | Some JNull \<Rightarrow> Inl (None, us)
      | Some b \<Rightarrow>
          (let prompt = get_prop b ''prompt''; conversation = get_prop b ''conversation'' in
           if \<not> truthy prompt \<or> \<not> is_string prompt then
             Inl (Some \<lparr>statusCode = 400, resp_body = ErrorMsg ''Invalid or missing prompt''\<rparr>,
                  logUsage us ip userAgent prompt False)
           else if str_length prompt > 500 then
             Inl (Some \<lparr>statusCode = 400, resp_body = ErrorMsg ''Prompt too long (max 500 characters)''\<rparr>,
                  logUsage us ip userAgent prompt False)
           else if conversation_invalid conversation then
             Inl (Some \<lparr>statusCode = 400, resp_body = ErrorMsg ''Invalid conversation history''\<rparr>,
                  logUsage us ip userAgent prompt False)
           else if or_default (HUGGINGFACE_API_KEY w) [] = [] then
             Inl (Some \<lparr>statusCode = 500, resp_body = ErrorMsg ''AI service not configured''\<rparr>,
                  logUsage us ip userAgent prompt False)
           else
             (case prompt of
                None \<Rightarrow> Inl (None, us)
              | Some pr \<Rightarrow> Inr (prompt, hfPayload pr conversation))))"

text \<open>The second part: the downstream call and what follows. A rejected \<^verbatim>\<open>fetch\<close> or
  \<^verbatim>\<open>response.json()\<close> throws, and so does reading \<^verbatim>\<open>data.error\<close> of a \<^verbatim>\<open>null\<close> answer.\<close>

definition after_fetch ::
  "json option \<Rightarrow> string \<Rightarrow> string \<Rightarrow> json option \<Rightarrow> usage \<Rightarrow> response option \<times> usage" where
  "after_fetch answer ip userAgent prompt us =
     (case answer of
        None \<Rightarrow> (None, us)
      | Some JNull \<Rightarrow> (None, us)
      | Some data \<Rightarrow>
          if truthy (get_prop data ''error'') then
            (Some \<lparr>statusCode = 502, resp_body = ErrorMsg ''AI service error''\<rparr>,
             logUsage us ip userAgent prompt False)
          else
            (Some \<lparr>statusCode = 200, resp_body = DataBody data\<rparr>,
             logUsage us ip userAgent prompt True))"

text \<open>The whole block. The first component is \<open>None\<close> when an exception was thrown; the
  second is \<open>usageStats\<close> as it stands at the return or the throw.\<close>

definition try_block :: "world \<Rightarrow> event \<Rightarrow> string \<Rightarrow> string \<Rightarrow> usage \<Rightarrow> response option \<times> usage" where
  "try_block w ev ip userAgent us =
     (case before_fetch w ev ip userAgent us of
        Inl res \<Rightarrow> res
      | Inr (prompt, payload) \<Rightarrow> after_fetch (fetch_json w payload) ip userAgent prompt us)"

text \<open>\<^verbatim>\<open>RATE_LIMITS[period].window\<close> and \<^verbatim>\<open>RATE_LIMITS[period].max\<close>; every period is a
  key of \<open>RATE_LIMITS\<close>, so the \<open>None\<close> branch is never taken.\<close>

definition window_of :: "period \<Rightarrow> int" where
  "window_of p = (case map_of RATE_LIMITS p of None \<Rightarrow> 0 | Some c \<Rightarrow> window c)"

definition max_of :: "period \<Rightarrow> nat" where
  "max_of p = (case map_of RATE_LIMITS p of None \<Rightarrow> 0 | Some c \<Rightarrow> max_limit c)"

text \<open>\<^verbatim>\<open>RATE_LIMITS[rateLimitResult.period].window / 1000\<close>\<close>

definition retryAfter :: "period \<Rightarrow> real" where
  "retryAfter p = real_of_int (window_of p) / 1000"

definition client_ip :: "event \<Rightarrow> string" where
  "client_ip ev =
     or_default (headers ev ''x-forwarded-for'')
       (or_default (headers ev ''client-ip'')
          (or_default (headers ev ''x-real-ip'') ''unknown''))"

definition handler :: "world \<Rightarrow> state \<Rightarrow> event \<Rightarrow> response \<times> state" where
  "handler w s ev =
     (if httpMethod ev = ''OPTIONS'' then (\<lparr>statusCode = 200, resp_body = Empty\<rparr>, s)
      else if httpMethod ev = ''GET'' \<and> str_includes (path ev) ''/stats'' then
        (\<lparr>statusCode = 200, resp_body = StatsBody (getUsageStats s (now_stats w))\<rparr>, s)
      else if httpMethod ev \<noteq> ''POST'' then
        (\<lparr>statusCode = 405, resp_body = ErrorMsg ''Method not allowed''\<rparr>, s)
      else
        (let ip = client_ip ev;
             userAgent = or_default (headers ev ''user-agent'') ''unknown'';
             rc0 = (if totalRequests (usageStats s) mod 100 = 0
                    then cleanupOldEntries (requestCounts s) (now_sweep w)
                    else requestCounts s)
         in case checkRateLimit rc0 ip (now_check w) of
              (Denied p limit, rc1) \<Rightarrow>
                (\<lparr>statusCode = 429, resp_body = RateLimited limit p (retryAfter p)\<rparr>,
                 \<lparr>requestCounts = rc1,
                  usageStats = (usageStats s)\<lparr>rateLimitHits := rateLimitHits (usageStats s) + 1\<rparr>\<rparr>)
            | (Allowed, rc1) \<Rightarrow>
                (case try_block w ev ip userAgent (usageStats s) of
                   (Some r, us') \<Rightarrow> (r, \<lparr>requestCounts = rc1, usageStats = us'\<rparr>)
                 | (None, us') \<Rightarrow>
                     (\<lparr>statusCode = 500, resp_body = ErrorMsg ''Internal server error''\<rparr>,
                      \<lparr>requestCounts = rc1,
                       usageStats = logUsage us' ip userAgent None False\<rparr>))))"

subsection \<open>Vocabulary for the properties\<close>

text \<open>The array recorded for an identity and a tier; an absent identity or tier has
  recorded nothing.\<close>

definition timestamps :: "ledger \<Rightarrow> string \<Rightarrow> period \<Rightarrow> int list" where
  "timestamps rc ip p =
     (case rc ip of None \<Rightarrow> [] | Some e \<Rightarrow> (case e p of None \<Rightarrow> [] | Some arr \<Rightarrow> arr))"

text \<open>The tiers whose arrays one call of \<open>checkRateLimit\<close> filters: all of them when it
  allows, the tiers up to and including the denying one when it denies.\<close>

fun pruned_tiers :: "rl_result \<Rightarrow> period list" where
  "pruned_tiers Allowed = map fst RATE_LIMITS"
| "pruned_tiers (Denied p n) = takeWhile (\<lambda>q. q \<noteq> p) (map fst RATE_LIMITS) @ [p]"

text \<open>A history of the ledger: calls of \<open>checkRateLimit\<close> and of the sweep, each with
  the clock reading it saw, starting from the empty ledger of a fresh process.\<close>

datatype call = Check string int | Sweep int

fun exec :: "ledger \<Rightarrow> call \<Rightarrow> ledger" where
  "exec rc (Check ip now) = snd (checkRateLimit rc ip now)"
| "exec rc (Sweep now) = cleanupOldEntries rc now"

definition run :: "call list \<Rightarrow> ledger" where
  "run calls = foldl exec Map.empty calls"

text \<open>Consecutive calls of \<open>checkRateLimit\<close> for one identity, with their results.\<close>

fun check_seq :: "ledger \<Rightarrow> string \<Rightarrow> int list \<Rightarrow> rl_result list \<times> ledger" where
  "check_seq rc ip [] = ([], rc)"
| "check_seq rc ip (t # ts) =
     (fst (checkRateLimit rc ip t) # fst (check_seq (snd (checkRateLimit rc ip t)) ip ts),
      snd (check_seq (snd (checkRateLimit rc ip t)) ip ts))"

text \<open>The ledger the handler passes to \<open>checkRateLimit\<close> (after the sweep, when one is
  due), and the outcome of that call.\<close>

definition ledger_before_check :: "world \<Rightarrow> state \<Rightarrow> ledger" where
  "ledger_before_check w s =
     (if totalRequests (usageStats s) mod 100 = 0
      then cleanupOldEntries (requestCounts s) (now_sweep w)
      else requestCounts s)"

definition admission :: "world \<Rightarrow> state \<Rightarrow> event \<Rightarrow> rl_result \<times> ledger" where
  "admission w s ev = checkRateLimit (ledger_before_check w s) (client_ip ev) (now_check w)"





text \<open>The array of a tier within one identity's entry.\<close>

definition arr_of :: "entry \<Rightarrow> period \<Rightarrow> int list" where
  "arr_of e p = (case e p of None \<Rightarrow> [] | Some a \<Rightarrow> a)"

text \<open>The filter \<open>checkRateLimit\<close> applies to the array of tier \<open>p\<close> at time \<open>now\<close>.\<close>

definition prune :: "int \<Rightarrow> period \<Rightarrow> int list \<Rightarrow> int list" where
  "prune now p xs = filter (\<lambda>timestamp. now - timestamp < window_of p) xs"

text \<open>No array is longer than its tier's maximum.\<close>

definition bounded :: "ledger \<Rightarrow> bool" where
  "bounded rc = (\<forall>ip p. length (timestamps rc ip p) \<le> max_of p)"


text \<open>An entry given by its three arrays.\<close>

definition tiers3 :: "int list \<Rightarrow> int list \<Rightarrow> int list \<Rightarrow> entry" where
  "tiers3 m h d = (\<lambda>q. Some (case q of Minute \<Rightarrow> m | Hour \<Rightarrow> h | Day \<Rightarrow> d))"


subsection \<open>Example inputs\<close>

text \<open>A fresh process started at time 0; a process in which one client has just made ten
  admitted requests; a POST from that client; a GET of the statistics; and a world in
  which the body parses to a given value and the downstream call gives a given answer.\<close>

definition fresh :: state where
  "fresh = \<lparr>requestCounts = Map.empty,
            usageStats = \<lparr>totalRequests = 0, uniqueIPs = {}, startTime = 0, errors = 0,
                           rateLimitHits = 0\<rparr>\<rparr>"

definition busy :: state where
  "busy = \<lparr>requestCounts = run (replicate 10 (Check ''1.2.3.4'' 0)),
           usageStats = \<lparr>totalRequests = 10, uniqueIPs = {''1.2.3.4''}, startTime = 0, errors = 0,
                          rateLimitHits = 0\<rparr>\<rparr>"

definition post_event :: event where
  "post_event = \<lparr>httpMethod = ''POST'', path = ''/.netlify/functions/ai-proxy'',
                 headers = [''x-forwarded-for'' \<mapsto> ''1.2.3.4''], body = Some ''body''\<rparr>"

definition stats_event :: event where
  "stats_event = \<lparr>httpMethod = ''GET'', path = ''/.netlify/functions/ai-proxy/stats'',
                  headers = Map.empty, body = None\<rparr>"

definition example_world :: "json \<Rightarrow> json option \<Rightarrow> world" where
  "example_world parsed answer =
     \<lparr>now_sweep = 1000, now_check = 1000, now_stats = 1000,
      HUGGINGFACE_API_KEY = Some ''key'',
      JSON_parse = (\<lambda>text. Some parsed), fetch_json = (\<lambda>payload. answer)\<rparr>"

text \<open>Two invalid payloads: a prompt of 501 characters, and a conversation whose history
  has 11 entries.\<close>

definition long_prompt :: json where
  "long_prompt = JObj [(''prompt'', JStr (replicate 501 CHR ''a''))]"

definition long_history :: json where
  "long_history =
     JObj [(''prompt'', JStr ''hello''),
           (''conversation'',
            JObj [(''past_user_inputs'', JArr (replicate 11 (JStr ''hi''))),
                  (''generated_responses'', JArr (replicate 11 (JStr ''ho'')))])]"

section \<open>Basic facts\<close>

lemma window_of_simps [simp]:
  "window_of Minute = 60000" "window_of Hour = 3600000" "window_of Day = 86400000"
  by (simp_all add: window_of_def RATE_LIMITS_def)

lemma max_of_simps [simp]:
  "max_of Minute = 10" "max_of Hour = 50" "max_of Day = 200"
  by (simp_all add: max_of_def RATE_LIMITS_def)


lemma check_loop_RL:
  "check_loop now RATE_LIMITS e =
    (if length (prune now Minute (arr_of e Minute)) \<ge> 10
     then (Some (Minute, 10), e(Minute \<mapsto> prune now Minute (arr_of e Minute)))
     else if length (prune now Hour (arr_of e Hour)) \<ge> 50
     then (Some (Hour, 50), e(Minute \<mapsto> prune now Minute (arr_of e Minute), Hour \<mapsto> prune now Hour (arr_of e Hour)))
     else if length (prune now Day (arr_of e Day)) \<ge> 200
     then (Some (Day, 200), e(Minute \<mapsto> prune now Minute (arr_of e Minute), Hour \<mapsto> prune now Hour (arr_of e Hour), Day \<mapsto> prune now Day (arr_of e Day)))
     else (None, e(Minute \<mapsto> prune now Minute (arr_of e Minute), Hour \<mapsto> prune now Hour (arr_of e Hour), Day \<mapsto> prune now Day (arr_of e Day))))"
  by (simp add: RATE_LIMITS_def Let_def prune_def arr_of_def)

lemma check_loop_defined:
  "check_loop now RATE_LIMITS e = (None, e') \<Longrightarrow> e' p \<noteq> None"
  by (cases p) (auto simp: check_loop_RL split: if_splits)

lemma record_all_RL:
  "record_all now (map fst RATE_LIMITS) (e(Minute \<mapsto> a, Hour \<mapsto> b, Day \<mapsto> c))
     = e(Minute \<mapsto> a @ [now], Hour \<mapsto> b @ [now], Day \<mapsto> c @ [now])"
  by (simp add: RATE_LIMITS_def fun_upd_twist)


lemma checkRateLimit_unfold:
  "checkRateLimit rc ip now =
    (let e = (case rc ip of None \<Rightarrow> Map.empty | Some e \<Rightarrow> e);
         m = prune now Minute (arr_of e Minute);
         h = prune now Hour (arr_of e Hour);
         d = prune now Day (arr_of e Day)
     in if length m \<ge> 10 then (Denied Minute 10, rc(ip \<mapsto> e(Minute \<mapsto> m)))
        else if length h \<ge> 50 then (Denied Hour 50, rc(ip \<mapsto> e(Minute \<mapsto> m, Hour \<mapsto> h)))
        else if length d \<ge> 200 then (Denied Day 200, rc(ip \<mapsto> e(Minute \<mapsto> m, Hour \<mapsto> h, Day \<mapsto> d)))
        else (Allowed, rc(ip \<mapsto> e(Minute \<mapsto> m @ [now], Hour \<mapsto> h @ [now], Day \<mapsto> d @ [now]))))"
  unfolding checkRateLimit_def check_loop_RL Let_def
  by (simp add: record_all_RL)

lemma arr_of_entry: "arr_of (case rc ip of None \<Rightarrow> Map.empty | Some e \<Rightarrow> e) p = timestamps rc ip p"
  by (simp add: arr_of_def timestamps_def split: option.splits)

lemma timestamps_upd: "timestamps (rc(ip \<mapsto> e)) ip p = arr_of e p"
  by (simp add: arr_of_def timestamps_def)

lemma pruned_tiers_simps:
  "pruned_tiers Allowed = [Minute, Hour, Day]"
  "pruned_tiers (Denied Minute n) = [Minute]"
  "pruned_tiers (Denied Hour n) = [Minute, Hour]"
  "pruned_tiers (Denied Day n) = [Minute, Hour, Day]"
  by (simp_all add: RATE_LIMITS_def)

lemma arr_of_upd: "arr_of (e(p \<mapsto> a)) q = (if q = p then a else arr_of e q)"
  by (simp add: arr_of_def)

lemma checkRateLimit_other:
  "checkRateLimit rc ip now = (r, rc') \<Longrightarrow> ip' \<noteq> ip \<Longrightarrow> rc' ip' = rc ip'"
  by (auto simp: checkRateLimit_unfold Let_def split: if_splits)

lemma checkRateLimit_timestamps:
  "checkRateLimit rc ip now = (r, rc') \<Longrightarrow>
   timestamps rc' ip q =
     (if q \<in> set (pruned_tiers r)
      then prune now q (timestamps rc ip q) @ (if r = Allowed then [now] else [])
      else timestamps rc ip q)"
  by (cases q) (auto simp: checkRateLimit_unfold Let_def timestamps_upd arr_of_entry pruned_tiers_simps arr_of_upd simp del: pruned_tiers.simps split: if_splits)

lemma checkRateLimit_denied:
  "checkRateLimit rc ip now = (Denied p n, rc') \<Longrightarrow>
   n = max_of p \<and> length (prune now p (timestamps rc ip p)) \<ge> max_of p"
  by (auto simp: checkRateLimit_unfold Let_def arr_of_entry split: if_splits)

lemma checkRateLimit_allowed:
  "checkRateLimit rc ip now = (Allowed, rc') \<Longrightarrow>
   length (prune now q (timestamps rc ip q)) < max_of q"
  by (cases q) (auto simp: checkRateLimit_unfold Let_def arr_of_entry split: if_splits)


lemma all_empty_iff: "all_empty e \<longleftrightarrow> (\<forall>p. arr_of e p = [])"
proof
  assume a: "all_empty e"
  show "\<forall>p. arr_of e p = []"
  proof
    fix p
    show "arr_of e p = []"
      using a by (cases p) (simp_all add: all_empty_def arr_of_def split: option.splits)
  qed
next
  assume a: "\<forall>p. arr_of e p = []"
  have "arr_of e Minute = []" "arr_of e Hour = []" "arr_of e Day = []"
    using a by simp_all
  then show "all_empty e"
    by (simp add: all_empty_def arr_of_def split: option.splits)
qed

lemma arr_of_sweep: "arr_of (sweep_entry now e) p = filter (\<lambda>timestamp. now - timestamp < maxWindow) (arr_of e p)"
  by (simp add: sweep_entry_def arr_of_def split: option.splits)

lemma cleanup_timestamps:
  "timestamps (cleanupOldEntries rc now) ip p =
     filter (\<lambda>timestamp. now - timestamp < maxWindow) (timestamps rc ip p)"
proof (cases "rc ip")
  case None
  then show ?thesis by (simp add: cleanupOldEntries_def timestamps_def)
next
  case (Some e)
  have ts: "timestamps rc ip p = arr_of e p"
    using Some by (simp add: timestamps_def arr_of_def)
  show ?thesis
  proof (cases "all_empty (sweep_entry now e)")
    case True
    then have "arr_of (sweep_entry now e) p = []" by (simp add: all_empty_iff)
    then show ?thesis
      using Some True ts by (simp add: cleanupOldEntries_def timestamps_def arr_of_sweep)
  next
    case False
    have "timestamps (cleanupOldEntries rc now) ip p = arr_of (sweep_entry now e) p"
      using Some False by (simp add: cleanupOldEntries_def timestamps_def arr_of_def)
    then show ?thesis by (simp add: arr_of_sweep ts)
  qed
qed

lemma length_prune_le: "length (prune now p xs) \<le> length xs"
  by (simp add: prune_def)

lemma bounded_checkRateLimit:
  assumes "bounded rc" and "checkRateLimit rc ip now = (r, rc')"
  shows "bounded rc'"
  unfolding bounded_def
proof (intro allI)
  fix ip' p
  show "length (timestamps rc' ip' p) \<le> max_of p"
  proof (cases "ip' = ip")
    case False
    then have "timestamps rc' ip' p = timestamps rc ip' p"
      using checkRateLimit_other [OF assms(2), of ip'] by (simp add: timestamps_def)
    then show ?thesis using assms(1) by (simp add: bounded_def)
  next
    case True
    have old: "length (timestamps rc ip p) \<le> max_of p"
      using assms(1) by (simp add: bounded_def)
    have pr: "length (prune now p (timestamps rc ip p)) \<le> max_of p"
      using old length_prune_le [of now p "timestamps rc ip p"] by linarith
    show ?thesis
    proof (cases r)
      case Allowed
      have c: "checkRateLimit rc ip now = (Allowed, rc')"
        using assms(2) Allowed by simp
      have lt: "length (prune now p (timestamps rc ip p)) < max_of p"
        by (rule checkRateLimit_allowed [OF c])
      have "timestamps rc' ip p = prune now p (timestamps rc ip p) @ [now]"
        using checkRateLimit_timestamps [OF c, of p] by (simp add: pruned_tiers_simps del: pruned_tiers.simps) (cases p; simp)
      then show ?thesis using lt True by simp
    next
      case (Denied q n)
      have c: "checkRateLimit rc ip now = (Denied q n, rc')"
        using assms(2) Denied by simp
      have "timestamps rc' ip p = prune now p (timestamps rc ip p) \<or> timestamps rc' ip p = timestamps rc ip p"
        using checkRateLimit_timestamps [OF c, of p] by (simp del: pruned_tiers.simps)
      then show ?thesis using old pr True by auto
    qed
  qed
qed

lemma bounded_cleanup: "bounded rc \<Longrightarrow> bounded (cleanupOldEntries rc now)"
  unfolding bounded_def cleanup_timestamps
  by (meson le_trans length_filter_le)

lemma bounded_exec: "bounded rc \<Longrightarrow> bounded (exec rc c)"
  by (cases c) (auto intro: bounded_cleanup bounded_checkRateLimit [OF _ surjective_pairing])

lemma bounded_foldl: "bounded rc \<Longrightarrow> bounded (foldl exec rc calls)"
  by (induction calls arbitrary: rc) (simp_all add: bounded_exec)

lemma bounded_run: "bounded (run calls)"
  unfolding run_def by (rule bounded_foldl) (simp add: bounded_def timestamps_def)

lemma prune_keep: "\<forall>a\<in>set xs. now - a < window_of p \<Longrightarrow> prune now p xs = xs"
  by (simp add: prune_def)

lemma checkRateLimit_allows:
  assumes "\<forall>q. length (prune now q (timestamps rc ip q)) < max_of q"
  shows "fst (checkRateLimit rc ip now) = Allowed"
proof -
  have "length (prune now Minute (timestamps rc ip Minute)) < 10"
       "length (prune now Hour (timestamps rc ip Hour)) < 50"
       "length (prune now Day (timestamps rc ip Day)) < 200"
    using assms [rule_format, of Minute] assms [rule_format, of Hour] assms [rule_format, of Day]
    by simp_all
  then show ?thesis
    by (simp add: checkRateLimit_unfold Let_def arr_of_entry)
qed

lemma checkRateLimit_denies_first:
  assumes "max_of Minute \<le> length (prune now Minute (timestamps rc ip Minute))"
  shows "fst (checkRateLimit rc ip now) = Denied Minute 10"
  using assms by (simp add: checkRateLimit_unfold Let_def arr_of_entry)



lemma check_seq_tier:
  "fst (check_seq rc ip ts) = replicate (length ts) Allowed \<Longrightarrow>
   timestamps rc ip p = pre \<Longrightarrow>
   \<forall>a\<in>set (pre @ ts). \<forall>b\<in>set (pre @ ts). a - b < window_of p \<Longrightarrow>
   timestamps (snd (check_seq rc ip ts)) ip p = pre @ ts"
proof (induction ts arbitrary: rc pre)
  case Nil
  then show ?case by simp
next
  case (Cons t ts)
  obtain r rc1 where c: "checkRateLimit rc ip t = (r, rc1)" by (cases "checkRateLimit rc ip t")
  have r: "r = Allowed" and rest: "fst (check_seq rc1 ip ts) = replicate (length ts) Allowed"
    using Cons.prems(1) c by simp_all
  have keep: "prune t p pre = pre"
    using Cons.prems(3) by (intro prune_keep) simp
  have ts1: "timestamps rc1 ip p = pre @ [t]"
    using checkRateLimit_timestamps [OF c, of p] r keep Cons.prems(2)
    by (cases p) (simp_all add: pruned_tiers_simps del: pruned_tiers.simps)
  have "timestamps (snd (check_seq rc1 ip ts)) ip p = (pre @ [t]) @ ts"
    using Cons.prems(3) by (intro Cons.IH [OF rest ts1]) simp
  then show ?case using c by simp
qed

lemma minute_burst:
  "\<forall>q. timestamps rc ip q = pre \<Longrightarrow> length (pre @ ts) \<le> 10 \<Longrightarrow>
   \<forall>a\<in>set (pre @ ts). \<forall>b\<in>set (pre @ ts). a - b < 60000 \<Longrightarrow>
   fst (check_seq rc ip ts) = replicate (length ts) Allowed"
proof (induction ts arbitrary: rc pre)
  case Nil
  then show ?case by simp
next
  case (Cons t ts)
  obtain r rc1 where c: "checkRateLimit rc ip t = (r, rc1)" by (cases "checkRateLimit rc ip t")
  have w: "60000 \<le> window_of q" for q by (cases q) simp_all
  have m: "10 \<le> max_of q" for q by (cases q) simp_all
  have keep: "prune t q pre = pre" for q
  proof (rule prune_keep, rule ballI)
    fix a assume "a \<in> set pre"
    then have "t - a < 60000" using Cons.prems(3) by simp
    then show "t - a < window_of q" using w [of q] by linarith
  qed
  have lt: "length pre < max_of q" for q
    using Cons.prems(2) m [of q] by simp
  have "\<forall>q. length (prune t q (timestamps rc ip q)) < max_of q"
    using Cons.prems(1) keep lt by simp
  then have r: "r = Allowed"
    using checkRateLimit_allows [of t rc ip] c by simp
  have ts1: "\<forall>q. timestamps rc1 ip q = pre @ [t]"
  proof
    fix q
    show "timestamps rc1 ip q = pre @ [t]"
      using checkRateLimit_timestamps [OF c, of q] r keep [of q] Cons.prems(1)
      by (cases q) (simp_all add: pruned_tiers_simps del: pruned_tiers.simps)
  qed
  have "fst (check_seq rc1 ip ts) = replicate (length ts) Allowed"
    using Cons.prems(2,3) by (intro Cons.IH [OF ts1]) simp_all
  then show ?case using c r by simp
qed

lemma burst_state:
  "\<forall>q. timestamps rc ip q = pre \<Longrightarrow> length (pre @ ts) \<le> 10 \<Longrightarrow>
   \<forall>a\<in>set (pre @ ts). \<forall>b\<in>set (pre @ ts). a - b < 60000 \<Longrightarrow>
   timestamps (snd (check_seq rc ip ts)) ip q = pre @ ts"
proof -
  assume a: "\<forall>q. timestamps rc ip q = pre" "length (pre @ ts) \<le> 10"
    "\<forall>a\<in>set (pre @ ts). \<forall>b\<in>set (pre @ ts). a - b < 60000"
  have w: "60000 \<le> window_of q" by (cases q) simp_all
  have "fst (check_seq rc ip ts) = replicate (length ts) Allowed"
    using a by (rule minute_burst)
  moreover have "timestamps rc ip q = pre" using a(1) by simp
  moreover have "\<forall>a\<in>set (pre @ ts). \<forall>b\<in>set (pre @ ts). a - b < window_of q"
    using a(3) w by fastforce
  ultimately show ?thesis by (rule check_seq_tier)
qed

lemma run_checks: "foldl exec rc (map (Check ip) ts) = snd (check_seq rc ip ts)"
  by (induction ts arbitrary: rc) simp_all

lemma timestamps_empty: "timestamps Map.empty ip q = []"
  by (simp add: timestamps_def)

text \<open>Ten admitted calls at one instant: the ledger they leave, and the denial of the next.\<close>

lemma burst_run_timestamps: "timestamps (run (replicate 10 (Check ''1.2.3.4'' 0))) ''1.2.3.4'' q = replicate 10 0"
proof -
  have "timestamps (snd (check_seq Map.empty ''1.2.3.4'' (replicate 10 0))) ''1.2.3.4'' q = [] @ replicate 10 0"
    by (rule burst_state) (simp_all add: timestamps_empty)
  then show ?thesis
    by (simp add: run_def run_checks [symmetric])
qed

lemma burst_run_denied: "fst (checkRateLimit (run (replicate 10 (Check ''1.2.3.4'' 0))) ''1.2.3.4'' 0) = Denied Minute 10"
  by (rule checkRateLimit_denies_first) (simp add: burst_run_timestamps prune_def)

subsection \<open>Windows and the clock\<close>











subsection \<open>Bursts of calls\<close>

lemma retryAfter_Minute: "retryAfter Minute = 60"
  by (simp add: retryAfter_def)





lemma tiers3_single: "[Minute \<mapsto> [now], Hour \<mapsto> [now], Day \<mapsto> [now]] = tiers3 [now] [now] [now]"
proof
  fix q show "[Minute \<mapsto> [now], Hour \<mapsto> [now], Day \<mapsto> [now]] q = tiers3 [now] [now] [now] q"
    by (cases q) (simp_all add: tiers3_def)
qed

lemma checkRateLimit_first:
  "checkRateLimit Map.empty ip now = (Allowed, [ip \<mapsto> tiers3 [now] [now] [now]])"
  by (simp add: checkRateLimit_unfold Let_def arr_of_def prune_def tiers3_single)









subsection \<open>The handler\<close>





lemma handler_POST:
  "httpMethod ev = ''POST'' \<Longrightarrow>
   handler w s ev =
     (case admission w s ev of
        (Denied p limit, rc1) \<Rightarrow>
          (\<lparr>statusCode = 429, resp_body = RateLimited limit p (retryAfter p)\<rparr>,
           \<lparr>requestCounts = rc1,
            usageStats = (usageStats s)\<lparr>rateLimitHits := rateLimitHits (usageStats s) + 1\<rparr>\<rparr>)
      | (Allowed, rc1) \<Rightarrow>
          (case try_block w ev (client_ip ev) (or_default (headers ev ''user-agent'') ''unknown'') (usageStats s) of
             (Some r, us') \<Rightarrow> (r, \<lparr>requestCounts = rc1, usageStats = us'\<rparr>)
           | (None, us') \<Rightarrow>
               (\<lparr>statusCode = 500, resp_body = ErrorMsg ''Internal server error''\<rparr>,
                \<lparr>requestCounts = rc1,
                 usageStats = logUsage us' (client_ip ev) (or_default (headers ev ''user-agent'') ''unknown'') None False\<rparr>)))"
  by (simp add: handler_def admission_def ledger_before_check_def Let_def)

lemma cleanup_empty: "cleanupOldEntries Map.empty now = Map.empty"
  by (simp add: cleanupOldEntries_def)

lemma client_ip_post: "client_ip post_event = ''1.2.3.4''"
  by (simp add: client_ip_def post_event_def or_default_def)

lemma admission_fresh:
  "fst (admission (example_world parsed answer) fresh post_event) = Allowed"
  by (simp add: admission_def ledger_before_check_def fresh_def cleanup_empty example_world_def
      checkRateLimit_first)

lemma timestamps_admission_fresh:
  "timestamps (snd (admission (example_world parsed answer) fresh post_event)) ''1.2.3.4'' q = [1000]"
  by (cases q) (simp_all add: admission_def ledger_before_check_def fresh_def cleanup_empty example_world_def
      checkRateLimit_first client_ip_post timestamps_def tiers3_def)

lemma admission_busy:
  "fst (admission (example_world parsed answer) busy post_event) = Denied Minute 10"
  unfolding admission_def
  by (rule checkRateLimit_denies_first)
     (simp add: ledger_before_check_def busy_def example_world_def client_ip_post
        burst_run_timestamps prune_def)

lemma post_event_method: "httpMethod post_event = ''POST''"
  by (simp add: post_event_def)


lemma handler_busy:
  "fst (handler (example_world parsed answer) busy post_event) =
     \<lparr>statusCode = 429, resp_body = RateLimited 10 Minute 60\<rparr>"
proof -
  obtain rc1 where adm: "admission (example_world parsed answer) busy post_event = (Denied Minute 10, rc1)"
    using admission_busy [of parsed answer]
    by (cases "admission (example_world parsed answer) busy post_event") simp
  show ?thesis
    by (simp add: handler_POST [OF post_event_method] adm retryAfter_Minute)
qed


lemma admission_timestamps:
  assumes "admission w s ev = (Allowed, rc1)"
  shows "timestamps rc1 (client_ip ev) q =
           prune (now_check w) q (timestamps (ledger_before_check w s) (client_ip ev) q) @ [now_check w]"
proof -
  have c: "checkRateLimit (ledger_before_check w s) (client_ip ev) (now_check w) = (Allowed, rc1)"
    using assms by (simp add: admission_def)
  show ?thesis
    using checkRateLimit_timestamps [OF c, of q]
    by (cases q) (simp_all add: pruned_tiers_simps del: pruned_tiers.simps)
qed

lemma handler_admitted_ledger:
  assumes "httpMethod ev = ''POST''" and "admission w s ev = (Allowed, rc1)"
  shows "requestCounts (snd (handler w s ev)) = rc1"
  using assms by (simp add: handler_POST split: prod.splits option.splits)




subsection \<open>Validation and the statistics endpoint\<close>

lemma try_block_empty_prompt:
  assumes "JSON_parse w (or_default (body ev) ''{}'') = Some b"
    and "get_prop b ''prompt'' = Some (JStr [])"
  shows "fst (try_block w ev ip ua us) =
           Some \<lparr>statusCode = 400, resp_body = ErrorMsg ''Invalid or missing prompt''\<rparr>"
proof -
  have "b \<noteq> JNull" using assms(2) by auto
  then show ?thesis
    using assms by (cases b) (simp_all add: try_block_def before_fetch_def Let_def)
qed

lemma handler_admitted:
  assumes "httpMethod ev = ''POST''" and "fst (admission w s ev) = Allowed"
    and "fst (try_block w ev (client_ip ev) (or_default (headers ev ''user-agent'') ''unknown'')
               (usageStats s)) = Some r"
  shows "fst (handler w s ev) = r"
proof -
  obtain rc1 where adm: "admission w s ev = (Allowed, rc1)"
    using assms(2) by (cases "admission w s ev") simp
  obtain us' where tb: "try_block w ev (client_ip ev) (or_default (headers ev ''user-agent'') ''unknown'')
               (usageStats s) = (Some r, us')"
    using assms(3)
    by (cases "try_block w ev (client_ip ev) (or_default (headers ev ''user-agent'') ''unknown'') (usageStats s)")
      simp
  show ?thesis
    by (simp add: handler_POST [OF assms(1)] adm tb)
qed

lemma JSON_parse_example: "JSON_parse (example_world parsed answer) text = Some parsed"
  by (simp add: example_world_def)

lemma try_block_long_prompt:
  assumes "JSON_parse w (or_default (body ev) ''{}'') = Some b"
    and "get_prop b ''prompt'' = Some (JStr pr)" and "500 < length pr"
  shows "fst (try_block w ev ip ua us) =
           Some \<lparr>statusCode = 400, resp_body = ErrorMsg ''Prompt too long (max 500 characters)''\<rparr>"
proof -
  have "b \<noteq> JNull" using assms(2) by auto
  moreover have "pr \<noteq> []" using assms(3) by auto
  ultimately show ?thesis
    using assms by (cases b) (simp_all add: try_block_def before_fetch_def Let_def)
qed

lemma try_block_long_history:
  assumes "JSON_parse w (or_default (body ev) ''{}'') = Some b"
    and "get_prop b ''prompt'' = Some (JStr pr)" and "pr \<noteq> []" and "length pr \<le> 500"
    and "get_prop b ''conversation'' = Some c"
    and "get_prop c ''past_user_inputs'' = Some (JArr xs)" and "10 < length xs"
  shows "fst (try_block w ev ip ua us) =
           Some \<lparr>statusCode = 400, resp_body = ErrorMsg ''Invalid conversation history''\<rparr>"
proof -
  have "b \<noteq> JNull" using assms(2) by auto
  moreover have "truthy (Some c)" using assms(6) by (cases c) simp_all
  ultimately show ?thesis
    using assms by (cases b) (simp_all add: try_block_def before_fetch_def Let_def conversation_invalid_def)
qed

lemma ledger_before_check_fresh:
  "ledger_before_check (example_world parsed answer) fresh = Map.empty"
  by (simp add: ledger_before_check_def fresh_def cleanup_empty)

lemma handler_stats:
  assumes "httpMethod ev = ''GET''" and "str_includes (path ev) ''/stats''"
  shows "handler w s ev =
           (\<lparr>statusCode = 200, resp_body = StatsBody (getUsageStats s (now_stats w))\<rparr>, s)"
  using assms by (simp add: handler_def)

section \<open>The claims\<close>

subsection \<open>C5: the count after a denial\<close>

text \<open>
  C5. In every ledger reachable from the empty ledger by calls of \<open>checkRateLimit\<close> and of
  the sweep \<open>cleanupOldEntries\<close> (for any identities and any clock readings), when a
  call of \<open>checkRateLimit\<close> returns a denial for tier \<open>p\<close>, the identity's array for
  \<open>p\<close>, as the call leaves it (filtered), has exactly \<open>max\<close> entries of that tier, and
  the reported limit is that maximum.
\<close>

theorem denial_count_exact:
  assumes "checkRateLimit (run calls) ip now = (Denied p n, rc')"
  shows "length (timestamps rc' ip p) = max_of p \<and> n = max_of p"
proof -
  have mem: "p \<in> set (pruned_tiers (Denied p n))" by simp
  have eq: "timestamps rc' ip p = prune now p (timestamps (run calls) ip p)"
    using checkRateLimit_timestamps [OF assms, of p] mem by simp
  have ge: "max_of p \<le> length (prune now p (timestamps (run calls) ip p))" and n: "n = max_of p"
    using checkRateLimit_denied [OF assms] by simp_all
  have "length (timestamps (run calls) ip p) \<le> max_of p"
    using bounded_run by (simp add: bounded_def)
  then have "length (prune now p (timestamps (run calls) ip p)) \<le> max_of p"
    using length_prune_le [of now p "timestamps (run calls) ip p"] by linarith
  then show ?thesis using eq ge n by simp
qed



theorem denial_count_exact_witness:
  "fst (checkRateLimit (run (replicate 10 (Check ''1.2.3.4'' 0))) ''1.2.3.4'' 0) = Denied Minute 10 \<and>
   length (timestamps (snd (checkRateLimit (run (replicate 10 (Check ''1.2.3.4'' 0))) ''1.2.3.4'' 0))
             ''1.2.3.4'' Minute) = 10"
proof -
  let ?rc = "run (replicate 10 (Check ''1.2.3.4'' 0))"
  have c: "checkRateLimit ?rc ''1.2.3.4'' 0 = (Denied Minute 10, snd (checkRateLimit ?rc ''1.2.3.4'' 0))"
    using burst_run_denied by (simp add: prod_eq_iff)
  show ?thesis
    using denial_count_exact [OF c] burst_run_denied by simp
qed

subsection \<open>C4: a denial records nothing\<close>

text \<open>
  C4. If \<open>checkRateLimit\<close> returns a denial for tier \<open>p\<close>, no timestamp is appended to any
  tier's array of that identity: the array of each tier checked up to and including \<open>p\<close>
  is the filtered old array, the array of each later tier is the old array untouched, and
  no array grows. In particular, when the minute tier denies, the hour and day arrays are
  left exactly as they were.
\<close>

theorem denial_records_nothing:
  assumes "checkRateLimit rc ip now = (Denied p n, rc')"
  shows "(\<forall>q. timestamps rc' ip q =
            (if q \<in> set (pruned_tiers (Denied p n))
             then prune now q (timestamps rc ip q) else timestamps rc ip q)) \<and>
         (\<forall>q. length (timestamps rc' ip q) \<le> length (timestamps rc ip q)) \<and>
         (p = Minute \<longrightarrow> timestamps rc' ip Hour = timestamps rc ip Hour \<and>
                         timestamps rc' ip Day = timestamps rc ip Day)"
proof -
  have ts: "timestamps rc' ip q =
      (if q \<in> set (pruned_tiers (Denied p n))
       then prune now q (timestamps rc ip q) else timestamps rc ip q)" for q
    using checkRateLimit_timestamps [OF assms, of q] by (simp del: pruned_tiers.simps)
  have len: "length (timestamps rc' ip q) \<le> length (timestamps rc ip q)" for q
    using ts [of q] length_prune_le [of now q "timestamps rc ip q"]
    by (simp del: pruned_tiers.simps split: if_splits)
  have "timestamps rc' ip Hour = timestamps rc ip Hour \<and>
        timestamps rc' ip Day = timestamps rc ip Day" if "p = Minute"
    using ts [of Hour] ts [of Day] that
    by (simp add: pruned_tiers_simps del: pruned_tiers.simps)
  then show ?thesis using ts len by blast
qed

theorem denial_records_nothing_witness:
  "fst (checkRateLimit (run (replicate 10 (Check ''1.2.3.4'' 0))) ''1.2.3.4'' 0) = Denied Minute 10 \<and>
   timestamps (snd (checkRateLimit (run (replicate 10 (Check ''1.2.3.4'' 0))) ''1.2.3.4'' 0))
     ''1.2.3.4'' Minute = replicate 10 0 \<and>
   timestamps (snd (checkRateLimit (run (replicate 10 (Check ''1.2.3.4'' 0))) ''1.2.3.4'' 0))
     ''1.2.3.4'' Hour = replicate 10 0 \<and>
   timestamps (snd (checkRateLimit (run (replicate 10 (Check ''1.2.3.4'' 0))) ''1.2.3.4'' 0))
     ''1.2.3.4'' Day = replicate 10 0"
proof -
  let ?rc = "run (replicate 10 (Check ''1.2.3.4'' 0))"
  have c: "checkRateLimit ?rc ''1.2.3.4'' 0 = (Denied Minute 10, snd (checkRateLimit ?rc ''1.2.3.4'' 0))"
    using burst_run_denied by (simp add: prod_eq_iff)
  show ?thesis
    using denial_records_nothing [OF c] burst_run_denied
    by (simp add: pruned_tiers_simps prune_def burst_run_timestamps del: pruned_tiers.simps)
qed

subsection \<open>C2: what a prune leaves\<close>




subsection \<open>C6: a burst of calls, then one more\<close>




subsection \<open>C7: the telemetry counters across one invocation\<close>



subsection \<open>C8: a failing downstream call\<close>



subsection \<open>C1: an invalid payload and the quota\<close>

text \<open>
  C1, as stated, fails: the handler calls \<open>checkRateLimit\<close> before it parses the body, and
  an admitted request has its timestamp recorded whatever the payload turns out to be. A
  POST with a prompt of 501 characters to a fresh process is answered 400 with the message
  for a long prompt, and the identity's minute array has grown from 0 to 1 entries.
\<close>

theorem long_prompt_consumes_quota:
  "fst (handler (example_world long_prompt None) fresh post_event) =
     \<lparr>statusCode = 400, resp_body = ErrorMsg ''Prompt too long (max 500 characters)''\<rparr> \<and>
   length (timestamps (requestCounts (snd (handler (example_world long_prompt None) fresh post_event)))
     ''1.2.3.4'' Minute) \<noteq>
   length (timestamps (requestCounts fresh) ''1.2.3.4'' Minute)"
proof -
  have p1: "get_prop long_prompt ''prompt'' = Some (JStr (replicate 501 CHR ''a''))"
    by (simp add: long_prompt_def)
  have r: "fst (handler (example_world long_prompt None) fresh post_event) =
     \<lparr>statusCode = 400, resp_body = ErrorMsg ''Prompt too long (max 500 characters)''\<rparr>"
    using post_event_method admission_fresh try_block_long_prompt [OF JSON_parse_example p1]
    by (intro handler_admitted) simp_all
  obtain rc1 where a: "admission (example_world long_prompt None) fresh post_event = (Allowed, rc1)"
    using admission_fresh [of long_prompt None]
    by (cases "admission (example_world long_prompt None) fresh post_event") simp
  have "timestamps (requestCounts (snd (handler (example_world long_prompt None) fresh post_event)))
     ''1.2.3.4'' Minute = [1000]"
    using handler_admitted_ledger [OF post_event_method a]
      timestamps_admission_fresh [of long_prompt None Minute] a by simp
  moreover have "timestamps (requestCounts fresh) ''1.2.3.4'' Minute = []"
    by (simp add: fresh_def timestamps_empty)
  ultimately show ?thesis using r by simp
qed

text \<open>
  C1, amended. For a POST request that the rate limiter admits and whose payload is rejected
  as invalid (a prompt longer than 500 characters; or a valid prompt with a conversation
  whose \<open>past_user_inputs\<close> is an array of more than 10 entries), the handler returns 400
  with the corresponding message, and the quota is consumed as for any admitted request:
  for every tier, the identity's array after the call is its filtered array before the
  call followed by the timestamp of this call.
\<close>

theorem invalid_payload_consumes_quota:
  assumes post: "httpMethod ev = ''POST''"
    and adm: "fst (admission w s ev) = Allowed"
    and parse: "JSON_parse w (or_default (body ev) ''{}'') = Some b"
    and prompt: "get_prop b ''prompt'' = Some (JStr pr)" "pr \<noteq> []"
  shows "(500 < length pr \<longrightarrow>
            fst (handler w s ev) =
              \<lparr>statusCode = 400, resp_body = ErrorMsg ''Prompt too long (max 500 characters)''\<rparr>) \<and>
         (length pr \<le> 500 \<and>
          (\<exists>c xs. get_prop b ''conversation'' = Some c \<and>
                  get_prop c ''past_user_inputs'' = Some (JArr xs) \<and> 10 < length xs) \<longrightarrow>
            fst (handler w s ev) =
              \<lparr>statusCode = 400, resp_body = ErrorMsg ''Invalid conversation history''\<rparr>) \<and>
         (\<forall>q. timestamps (requestCounts (snd (handler w s ev))) (client_ip ev) q =
                prune (now_check w) q (timestamps (ledger_before_check w s) (client_ip ev) q)
                  @ [now_check w])"
proof (intro conjI impI allI)
  assume "500 < length pr"
  then show "fst (handler w s ev) =
      \<lparr>statusCode = 400, resp_body = ErrorMsg ''Prompt too long (max 500 characters)''\<rparr>"
    using post adm try_block_long_prompt [OF parse prompt(1)] by (intro handler_admitted) simp_all
next
  assume a: "length pr \<le> 500 \<and>
          (\<exists>c xs. get_prop b ''conversation'' = Some c \<and>
                  get_prop c ''past_user_inputs'' = Some (JArr xs) \<and> 10 < length xs)"
  then obtain c xs where c: "get_prop b ''conversation'' = Some c"
    "get_prop c ''past_user_inputs'' = Some (JArr xs)" "10 < length xs"
    by blast
  have "length pr \<le> 500" using a by simp
  then show "fst (handler w s ev) =
      \<lparr>statusCode = 400, resp_body = ErrorMsg ''Invalid conversation history''\<rparr>"
    using post adm try_block_long_history [OF parse prompt _ c] by (intro handler_admitted) simp_all
next
  fix q
  obtain rc1 where a: "admission w s ev = (Allowed, rc1)"
    using adm by (cases "admission w s ev") simp
  show "timestamps (requestCounts (snd (handler w s ev))) (client_ip ev) q =
                prune (now_check w) q (timestamps (ledger_before_check w s) (client_ip ev) q)
                  @ [now_check w]"
    using handler_admitted_ledger [OF post a] admission_timestamps [OF a] by simp
qed

theorem invalid_payload_consumes_quota_witness:
  "fst (handler (example_world long_prompt None) fresh post_event) =
     \<lparr>statusCode = 400, resp_body = ErrorMsg ''Prompt too long (max 500 characters)''\<rparr> \<and>
   timestamps (requestCounts (snd (handler (example_world long_prompt None) fresh post_event)))
     ''1.2.3.4'' Minute = [1000] \<and>
   fst (handler (example_world long_history None) fresh post_event) =
     \<lparr>statusCode = 400, resp_body = ErrorMsg ''Invalid conversation history''\<rparr> \<and>
   timestamps (requestCounts (snd (handler (example_world long_history None) fresh post_event)))
     ''1.2.3.4'' Minute = [1000]"
proof -
  have now: "now_check (example_world parsed answer) = 1000" for parsed answer
    by (simp add: example_world_def)
  have p1: "get_prop long_prompt ''prompt'' = Some (JStr (replicate 501 CHR ''a''))"
    by (simp add: long_prompt_def)
  have p2: "get_prop long_history ''prompt'' = Some (JStr ''hello'')"
    by (simp add: long_history_def)
  have ne1: "replicate 501 CHR ''a'' \<noteq> []" and ne2: "''hello'' \<noteq> []"
    by simp_all
  have c2: "\<exists>c xs. get_prop long_history ''conversation'' = Some c \<and>
                  get_prop c ''past_user_inputs'' = Some (JArr xs) \<and> 10 < length xs"
    by (simp add: long_history_def)
  have "fst (handler (example_world long_prompt None) fresh post_event) =
     \<lparr>statusCode = 400, resp_body = ErrorMsg ''Prompt too long (max 500 characters)''\<rparr> \<and>
   timestamps (requestCounts (snd (handler (example_world long_prompt None) fresh post_event)))
     ''1.2.3.4'' Minute = [1000]"
    using invalid_payload_consumes_quota [OF post_event_method
        admission_fresh [of long_prompt None] JSON_parse_example [of long_prompt None] p1 ne1]
    by (simp add: client_ip_post ledger_before_check_fresh timestamps_empty prune_def now)
  moreover have "fst (handler (example_world long_history None) fresh post_event) =
     \<lparr>statusCode = 400, resp_body = ErrorMsg ''Invalid conversation history''\<rparr> \<and>
   timestamps (requestCounts (snd (handler (example_world long_history None) fresh post_event)))
     ''1.2.3.4'' Minute = [1000]"
    using invalid_payload_consumes_quota [OF post_event_method
        admission_fresh [of long_history None] JSON_parse_example [of long_history None] p2 ne2] c2
    by (simp add: client_ip_post ledger_before_check_fresh timestamps_empty prune_def now)
  ultimately show ?thesis by simp
qed

subsection \<open>C10: the empty prompt\<close>

text \<open>
  C10, as stated for every POST request, fails for a request the rate limiter denies: the
  body is never parsed and the answer is 429. Here the client that has just made ten
  admitted requests sends a body that parses to an object with the empty prompt.
\<close>

theorem empty_prompt_rate_limited:
  "JSON_parse (example_world (JObj [(''prompt'', JStr [])]) None) (or_default (body post_event) ''{}'') =
     Some (JObj [(''prompt'', JStr [])]) \<and>
   statusCode (fst (handler (example_world (JObj [(''prompt'', JStr [])]) None) busy post_event)) = 429"
  by (simp add: handler_busy JSON_parse_example)

text \<open>
  C10, amended. For every POST request that the rate limiter admits and whose body parses to
  an object with \<open>prompt\<close> equal to the empty string, the handler returns 400 with the error
  \<open>Invalid or missing prompt\<close>: the check is falsiness, not only presence and type.
\<close>

theorem empty_prompt_rejected:
  assumes "httpMethod ev = ''POST''"
    and "fst (admission w s ev) = Allowed"
    and "JSON_parse w (or_default (body ev) ''{}'') = Some b"
    and "get_prop b ''prompt'' = Some (JStr [])"
  shows "fst (handler w s ev) =
           \<lparr>statusCode = 400, resp_body = ErrorMsg ''Invalid or missing prompt''\<rparr>"
  using assms(1,2) try_block_empty_prompt [OF assms(3,4)] by (rule handler_admitted)

theorem empty_prompt_rejected_witness:
  "fst (handler (example_world (JObj [(''prompt'', JStr [])]) None) fresh post_event) =
     \<lparr>statusCode = 400, resp_body = ErrorMsg ''Invalid or missing prompt''\<rparr>"
  by (rule empty_prompt_rejected [where b = "JObj [(''prompt'', JStr [])]"])
     (simp_all add: post_event_method admission_fresh JSON_parse_example)

subsection \<open>C9: the snapshot twice\<close>

text \<open>
  C9. A GET of the statistics leaves the state as it was; a second one, with no request in
  between, does so too. The two snapshots agree in every field except the two derived from
  the uptime (\<open>uptimeHours\<close> and \<open>requestsPerHour\<close>), and with equal clock readings the two
  responses are equal.
\<close>

theorem snapshot_idempotent:
  assumes "httpMethod ev = ''GET''" and "str_includes (path ev) ''/stats''"
  shows "snd (handler w1 s ev) = s \<and>
         snd (handler w2 (snd (handler w1 s ev)) ev) = s \<and>
         fst (handler w1 s ev) =
           \<lparr>statusCode = 200, resp_body = StatsBody (getUsageStats s (now_stats w1))\<rparr> \<and>
         fst (handler w2 (snd (handler w1 s ev)) ev) =
           \<lparr>statusCode = 200, resp_body = StatsBody (getUsageStats s (now_stats w2))\<rparr> \<and>
         (getUsageStats s (now_stats w1))\<lparr>uptimeHours := u, requestsPerHour := q\<rparr> =
           (getUsageStats s (now_stats w2))\<lparr>uptimeHours := u, requestsPerHour := q\<rparr> \<and>
         (now_stats w1 = now_stats w2 \<longrightarrow>
            fst (handler w1 s ev) = fst (handler w2 (snd (handler w1 s ev)) ev))"
  by (simp add: handler_stats [OF assms] getUsageStats_def Let_def)

theorem snapshot_idempotent_witness:
  "snd (handler (example_world JNull None) busy stats_event) = busy \<and>
   fst (handler (example_world JNull None) (snd (handler (example_world JNull None) busy stats_event))
          stats_event) =
     fst (handler (example_world JNull None) busy stats_event) \<and>
   stat_totalRequests (getUsageStats busy 1000) = 10"
proof -
  have m: "httpMethod stats_event = ''GET''" and p: "str_includes (path stats_event) ''/stats''"
    by (simp_all add: stats_event_def)
  show ?thesis
    using snapshot_idempotent [OF m p, of "example_world JNull None" busy "example_world JNull None"]
    by (simp add: getUsageStats_def busy_def)
qed

subsection \<open>C3: the division in the snapshot\<close>



end
